theory Spec2Isabelle
  imports Complex_Main "HOL-Library.Char_ord" "HOL-Library.List_Lexorder"
begin

section \<open>Errors\<close>

text \<open>
  Exceptions are values. \<open>ValueError\<close>, \<open>KeyError\<close> and \<open>IndexError\<close> are the
  exceptions the library calls of the sources can raise. The other three kinds are the ones the
  specification names; no statement of the sources constructs them.
\<close>

datatype error =
    ValueError
  | KeyError
  | IndexError
  | EmptyDatasetError
  | InvalidDateRangeError
  | InvalidSeasonError

section \<open>Calendar dates\<close>

text \<open>
  A day-resolution timestamp, as \<open>pd.date_range(..., freq='D')\<close> and
  \<open>pd.to_datetime\<close> of a date produce it. Timestamps are compared by their
  position on the time line, here the proleptic Gregorian day number.
\<close>

record timestamp =
  ts_year :: int
  ts_month :: int
  ts_day :: int

definition is_leap :: "int \<Rightarrow> bool" where
  "is_leap y = (y mod 4 = 0 \<and> (y mod 100 \<noteq> 0 \<or> y mod 400 = 0))"

definition days_in_month :: "int \<Rightarrow> int \<Rightarrow> int" where
  "days_in_month y m =
     (if m = 2 then (if is_leap y then 29 else 28)
      else if m = 4 \<or> m = 6 \<or> m = 9 \<or> m = 11 then 30
      else 31)"

definition valid_ts :: "timestamp \<Rightarrow> bool" where
  "valid_ts d = (1 \<le> ts_month d \<and> ts_month d \<le> 12 \<and>
                 1 \<le> ts_day d \<and> ts_day d \<le> days_in_month (ts_year d) (ts_month d))"

definition days_before_year :: "int \<Rightarrow> int" where
  "days_before_year y = (let p = y - 1 in p * 365 + p div 4 - p div 100 + p div 400)"

definition days_before_month :: "int \<Rightarrow> int \<Rightarrow> int" where
  "days_before_month y m = sum_list (map (days_in_month y) [1..m - 1])"

definition toordinal :: "timestamp \<Rightarrow> int" where
  "toordinal d =
     days_before_year (ts_year d) + days_before_month (ts_year d) (ts_month d) + ts_day d"

definition ts_le :: "timestamp \<Rightarrow> timestamp \<Rightarrow> bool" where
  "ts_le a b = (toordinal a \<le> toordinal b)"

definition ts_less :: "timestamp \<Rightarrow> timestamp \<Rightarrow> bool" where
  "ts_less a b = (toordinal a < toordinal b)"

definition next_day :: "timestamp \<Rightarrow> timestamp" where
  "next_day d =
     (if ts_day d < days_in_month (ts_year d) (ts_month d) then d\<lparr>ts_day := ts_day d + 1\<rparr>
      else if ts_month d < 12 then d\<lparr>ts_month := ts_month d + 1, ts_day := 1\<rparr>
      else \<lparr>ts_year = ts_year d + 1, ts_month = 1, ts_day = 1\<rparr>)"

lemma days_before_month_step:
  "1 \<le> m \<Longrightarrow> days_before_month y (m + 1) = days_before_month y m + days_in_month y m"
  by (simp add: days_before_month_def upto_rec2)

lemma days_before_month_one: "days_before_month y 1 = 0"
  by (simp add: days_before_month_def)

lemma days_before_month_twelve:
  "days_before_month y 12 + 31 = (if is_leap y then 366 else 365)"
  by (simp add: days_before_month_def days_in_month_def upto_rec1)

lemma div_succ:
  fixes p :: int
  assumes "0 < n"
  shows "(p + 1) div n = p div n + (if (p + 1) mod n = 0 then 1 else 0)"
proof -
  define q where "q = p div n"
  define r where "r = p mod n"
  have r: "0 \<le> r" "r < n" using assms by (simp_all add: r_def)
  have p: "p = n * q + r" by (simp add: q_def r_def)
  show ?thesis
  proof (cases "r + 1 = n")
    case True
    have "p + 1 = n * (q + 1) + 0" using p True by (simp add: algebra_simps)
    hence "(p + 1) div n = q + 1" and "(p + 1) mod n = 0"
      using assms by (auto intro: int_div_pos_eq int_mod_pos_eq)
    then show ?thesis by (simp add: q_def)
  next
    case False
    hence lt: "r + 1 < n" using r by linarith
    have "p + 1 = n * q + (r + 1)" using p by linarith
    hence "(p + 1) div n = q" and "(p + 1) mod n = r + 1"
      using assms r lt by (auto intro: int_div_pos_eq int_mod_pos_eq)
    then show ?thesis using r by (simp add: q_def)
  qed
qed

lemma days_before_year_step:
  "days_before_year (y + 1) = days_before_year y + (if is_leap y then 366 else 365)"
proof -
  define A where "A = (y - 1) div 4"
  define B where "B = (y - 1) div 100"
  define C where "C = (y - 1) div 400"
  define P4 where "P4 \<longleftrightarrow> y mod 4 = 0"
  define P100 where "P100 \<longleftrightarrow> y mod 100 = 0"
  define P400 where "P400 \<longleftrightarrow> y mod 400 = 0"
  have a: "y div 4 = A + (if P4 then 1 else 0)"
    unfolding A_def P4_def using div_succ [of 4 "y - 1"] by simp
  have b: "y div 100 = B + (if P100 then 1 else 0)"
    unfolding B_def P100_def using div_succ [of 100 "y - 1"] by simp
  have c: "y div 400 = C + (if P400 then 1 else 0)"
    unfolding C_def P400_def using div_succ [of 400 "y - 1"] by simp
  have "(100::int) dvd 400" and "(4::int) dvd 100" by simp_all
  then have d: "P400 \<Longrightarrow> P100" and e: "P100 \<Longrightarrow> P4"
    unfolding P4_def P100_def P400_def mod_eq_0_iff_dvd by (blast intro: dvd_trans)+
  have l: "days_before_year (y + 1) = y * 365 + y div 4 - y div 100 + y div 400"
    by (simp add: days_before_year_def)
  have r: "days_before_year y = (y - 1) * 365 + A - B + C"
    by (simp add: days_before_year_def Let_def A_def B_def C_def)
  have leap: "is_leap y \<longleftrightarrow> P4 \<and> (\<not> P100 \<or> P400)"
    by (simp add: is_leap_def P4_def P100_def P400_def)
  show ?thesis
    unfolding l r a b c leap using d e
    by (cases P4; cases P100; cases P400; simp add: algebra_simps)
qed

lemma toordinal_next_day:
  assumes "valid_ts d"
  shows "toordinal (next_day d) = toordinal d + 1"
proof -
  let ?y = "ts_year d" and ?m = "ts_month d" and ?k = "ts_day d"
  from assms have m: "1 \<le> ?m" "?m \<le> 12" and k: "?k \<le> days_in_month ?y ?m"
    by (simp_all add: valid_ts_def)
  consider (day) "?k < days_in_month ?y ?m"
    | (month) "?k = days_in_month ?y ?m" "?m < 12"
    | (year) "?k = days_in_month ?y ?m" "?m = 12"
    using m k by linarith
  then show ?thesis
  proof cases
    case day
    then show ?thesis by (simp add: next_day_def toordinal_def)
  next
    case month
    then show ?thesis
      using days_before_month_step [OF m(1), of ?y]
      by (simp add: next_day_def toordinal_def)
  next
    case year
    have "?k = 31" using year by (simp add: days_in_month_def)
    then show ?thesis
      using year days_before_month_twelve [of ?y] days_before_year_step [of ?y]
      by (simp add: next_day_def toordinal_def days_before_month_one days_in_month_def
               split: if_splits)
  qed
qed

text \<open>
  \<open>pd.date_range(start, end, freq='D')\<close>: the days from \<open>start\<close> to \<open>end\<close>,
  both included, in steps of one day.
\<close>

function days_from :: "timestamp \<Rightarrow> timestamp \<Rightarrow> timestamp list" where
  "days_from d e = (if valid_ts d \<and> ts_le d e then d # days_from (next_day d) e else [])"
  by pat_completeness auto
termination
  by (relation "measure (\<lambda>(d, e). nat (toordinal e + 1 - toordinal d))")
     (auto simp: ts_le_def toordinal_next_day)

declare days_from.simps [simp del]

definition pd_date_range :: "timestamp \<Rightarrow> timestamp \<Rightarrow> timestamp list" where
  "pd_date_range start end = days_from start end"

section \<open>The series generator (data_generator.py)\<close>

text \<open>
  One row of the weather table. \<open>index_label\<close> is the label of the row in the frame's
  index (the default \<open>RangeIndex\<close> of a new frame); selecting rows keeps the labels.
  Floating-point numbers are modelled as real numbers.
\<close>

record weather_row =
  index_label :: nat
  date :: timestamp
  temperature :: real
  humidity :: real
  rainfall :: real
  month :: int
  month_name :: string
  season :: string

text \<open>
  The generator is not seeded. Its random draws are a parameter: one stream of standard
  variates for each call of \<open>np.random\<close>, whose \<open>k\<close>-th value is the variate behind
  the \<open>k\<close>-th entry of the array the call returns. \<open>np.random.normal(loc, scale, n)\<close>
  is \<open>loc + scale * z\<close> for standard normal variates \<open>z\<close>,
  \<open>np.random.exponential(scale, n)\<close> is \<open>scale * e\<close> for standard exponential
  variates \<open>e\<close>, and \<open>np.random.rand(n)\<close> gives the uniform variates themselves.
\<close>

record rng =
  gauss_temperature :: "nat \<Rightarrow> real"
  gauss_humidity :: "nat \<Rightarrow> real"
  uniform_rain_prob :: "nat \<Rightarrow> real"
  standard_exponential_wet :: "nat \<Rightarrow> real"
  standard_exponential_dry :: "nat \<Rightarrow> real"

definition np_random_normal :: "(nat \<Rightarrow> real) \<Rightarrow> real \<Rightarrow> real \<Rightarrow> nat \<Rightarrow> real list" where
  "np_random_normal z loc scale n = map (\<lambda>k. loc + scale * z k) [0..<n]"

definition np_random_rand :: "(nat \<Rightarrow> real) \<Rightarrow> nat \<Rightarrow> real list" where
  "np_random_rand u n = map u [0..<n]"

definition np_random_exponential :: "(nat \<Rightarrow> real) \<Rightarrow> real \<Rightarrow> nat \<Rightarrow> real list" where
  "np_random_exponential e scale n = map (\<lambda>k. scale * e k) [0..<n]"

definition np_arange :: "nat \<Rightarrow> real list" where
  "np_arange n = map real [0..<n]"

definition np_clip :: "real \<Rightarrow> real \<Rightarrow> real \<Rightarrow> real" where
  "np_clip x lo hi = min (max x lo) hi"

definition np_sum :: "bool list \<Rightarrow> nat" where
  "np_sum sel = length (filter id sel)"

fun assign_masked :: "real list \<Rightarrow> bool list \<Rightarrow> real list \<Rightarrow> real list" where
  "assign_masked (x # xs) (True # ms) (v # vs) = v # assign_masked xs ms vs"
| "assign_masked (x # xs) (False # ms) vs = x # assign_masked xs ms vs"
| "assign_masked xs ms vs = xs"

text \<open>
  \<open>a[mask] = values\<close>: the selected positions take the values in order. A mask of
  another length is an \<open>IndexError\<close>; a value array that has neither one entry (which
  is broadcast) nor as many entries as the mask selects is a \<open>ValueError\<close>.
\<close>

definition set_masked :: "real list \<Rightarrow> bool list \<Rightarrow> real list \<Rightarrow> error + real list" where
  "set_masked a sel vs =
     (if length sel \<noteq> length a then Inl IndexError
      else if length vs = np_sum sel then Inr (assign_masked a sel vs)
      else if length vs = 1 then Inr (assign_masked a sel (replicate (np_sum sel) (hd vs)))
      else Inl ValueError)"

definition month_order :: "string list" where
  "month_order = [''January'', ''February'', ''March'', ''April'', ''May'', ''June'',
                  ''July'', ''August'', ''September'', ''October'', ''November'', ''December'']"

text \<open>\<open>.dt.month_name()\<close>; the month of a timestamp is always between 1 and 12.\<close>

definition dt_month_name :: "timestamp \<Rightarrow> string" where
  "dt_month_name d =
     (if 1 \<le> ts_month d \<and> ts_month d \<le> 12 then month_order ! nat (ts_month d - 1) else [])"

definition get_season :: "int \<Rightarrow> string" where
  "get_season m =
     (if m \<in> set [12, 1, 2] then ''Winter''
      else if m \<in> set [3, 4, 5] then ''Spring''
      else if m \<in> set [6, 7, 8] then ''Summer''
      else ''Fall'')"

definition base_temp :: "nat \<Rightarrow> real list" where
  "base_temp n = map (\<lambda>x. 20 + 15 * sin ((x / 365) * 2 * pi)) (np_arange n)"

definition base_humidity :: "nat \<Rightarrow> real list" where
  "base_humidity n = map (\<lambda>x. 60 + 20 * sin ((x / 365) * 2 * pi)) (np_arange n)"

definition spring_fall :: "timestamp \<Rightarrow> bool" where
  "spring_fall d = ((ts_month d \<ge> 3 \<and> ts_month d \<le> 5) \<or> (ts_month d \<ge> 9 \<and> ts_month d \<le> 11))"

text \<open>
  \<open>pd.DataFrame\<close> of four columns, followed by the three derived columns
  \<open>month\<close>, \<open>month_name\<close> and \<open>season\<close>. Columns of different lengths are a
  \<open>ValueError\<close>.
\<close>

definition DataFrame ::
  "timestamp list \<Rightarrow> real list \<Rightarrow> real list \<Rightarrow> real list \<Rightarrow> error + weather_row list" where
  "DataFrame ds ts hs rs =
     (if length ts = length ds \<and> length hs = length ds \<and> length rs = length ds
      then Inr (map (\<lambda>i. \<lparr>index_label = i, date = ds ! i, temperature = ts ! i,
                            humidity = hs ! i, rainfall = rs ! i,
                            month = ts_month (ds ! i),
                            month_name = dt_month_name (ds ! i),
                            season = get_season (ts_month (ds ! i))\<rparr>) [0..<length ds])
      else Inl ValueError)"

definition generate_weather_data :: "rng \<Rightarrow> error + weather_row list" where
  "generate_weather_data g =
     (let date_range = pd_date_range \<lparr>ts_year = 2024, ts_month = 1, ts_day = 1\<rparr>
                                     \<lparr>ts_year = 2024, ts_month = 12, ts_day = 31\<rparr>;
          n = length date_range;
          temperatures = map2 (+) (base_temp n) (np_random_normal (gauss_temperature g) 0 3 n);
          humidity = map2 (+) (base_humidity n) (np_random_normal (gauss_humidity g) 0 10 n);
          humidity = map (\<lambda>h. np_clip h 20 100) humidity;
          rainfall = replicate n 0;
          spring_fall_mask = map spring_fall date_range;
          rain_prob = np_random_rand (uniform_rain_prob g) n;
          wet = map2 (\<lambda>m p. m \<and> p > 0.6) spring_fall_mask rain_prob;
          dry = map2 (\<lambda>m p. \<not> m \<and> p > 0.8) spring_fall_mask rain_prob
      in case set_masked rainfall wet
                (np_random_exponential (standard_exponential_wet g) 5 (np_sum wet)) of
           Inl e \<Rightarrow> Inl e
         | Inr rainfall \<Rightarrow>
             (case set_masked rainfall dry
                     (np_random_exponential (standard_exponential_dry g) 2 (np_sum dry)) of
                Inl e \<Rightarrow> Inl e
              | Inr rainfall \<Rightarrow> DataFrame date_range temperatures humidity rainfall))"

section \<open>The aggregator and the comfort index (data_processor.py)\<close>

text \<open>
  The functions take any table that has the columns of \<open>weather_row\<close>, with or without
  further columns. A cell of an aggregate table is \<open>None\<close> where pandas has \<open>NaN\<close>.
\<close>

record avg_row =
  label :: string
  mean_temperature :: "real option"
  mean_humidity :: "real option"
  mean_rainfall :: "real option"

definition series_mean :: "real list \<Rightarrow> real option" where
  "series_mean xs = (if xs = [] then None else Some (sum_list xs / real (length xs)))"

text \<open>
  \<open>df.groupby(key)[['temperature', 'humidity', 'rainfall']].mean()\<close>: one row for each
  key that occurs, in the sorted order of the keys.
\<close>

definition groupby_mean ::
  "('a weather_row_scheme \<Rightarrow> string) \<Rightarrow> 'a weather_row_scheme list \<Rightarrow> avg_row list" where
  "groupby_mean key df =
     map (\<lambda>k. let grp = filter (\<lambda>r. key r = k) df
              in \<lparr>label = k,
                  mean_temperature = series_mean (map temperature grp),
                  mean_humidity = series_mean (map humidity grp),
                  mean_rainfall = series_mean (map rainfall grp)\<rparr>)
         (sort (remdups (map key df)))"

text \<open>
  \<open>reindex(labels)\<close>: one row for each requested label, in the requested order; a label
  that the table does not have gives a row of \<open>NaN\<close>. A table with a repeated label
  cannot be reindexed (\<open>ValueError\<close>).
\<close>

definition reindex :: "avg_row list \<Rightarrow> string list \<Rightarrow> error + avg_row list" where
  "reindex tbl labels =
     (if \<not> distinct (map label tbl) then Inl ValueError
      else Inr (map (\<lambda>l. case find (\<lambda>r. label r = l) tbl of
                            Some r \<Rightarrow> r
                          | None \<Rightarrow> \<lparr>label = l, mean_temperature = None,
                                     mean_humidity = None, mean_rainfall = None\<rparr>) labels))"

definition get_monthly_averages :: "'a weather_row_scheme list \<Rightarrow> error + avg_row list" where
  "get_monthly_averages df =
     (let monthly_avg = groupby_mean month_name df
      in reindex monthly_avg month_order)"

text \<open>
  \<open>idxmax\<close> and \<open>idxmin\<close> of a column: the index label of the first row that holds
  the greatest (least) value. On a column without rows pandas raises \<open>ValueError\<close>.
\<close>

fun first_extreme :: "(real \<Rightarrow> real \<Rightarrow> bool) \<Rightarrow> nat \<times> real \<Rightarrow> (nat \<times> real) list \<Rightarrow> nat" where
  "first_extreme better best [] = fst best"
| "first_extreme better best (x # xs) =
     (if better (snd x) (snd best) then first_extreme better x xs
      else first_extreme better best xs)"

definition idxmax :: "(nat \<times> real) list \<Rightarrow> error + nat" where
  "idxmax col = (case col of [] \<Rightarrow> Inl ValueError | x # xs \<Rightarrow> Inr (first_extreme (>) x xs))"

definition idxmin :: "(nat \<times> real) list \<Rightarrow> error + nat" where
  "idxmin col = (case col of [] \<Rightarrow> Inl ValueError | x # xs \<Rightarrow> Inr (first_extreme (<) x xs))"

definition column :: "('a weather_row_scheme \<Rightarrow> real) \<Rightarrow> 'a weather_row_scheme list \<Rightarrow> (nat \<times> real) list" where
  "column c df = map (\<lambda>r. (index_label r, c r)) df"

text \<open>
  \<open>df.loc[l]\<close>: the row labelled \<open>l\<close>; a label the index does not have is a
  \<open>KeyError\<close>. The labels of a table are distinct: the generator numbers its rows, and
  selecting rows keeps their labels.
\<close>

definition loc :: "'a weather_row_scheme list \<Rightarrow> nat \<Rightarrow> error + 'a weather_row_scheme" where
  "loc df l = (case find (\<lambda>r. index_label r = l) df of None \<Rightarrow> Inl KeyError | Some r \<Rightarrow> Inr r)"

definition bind :: "error + 'a \<Rightarrow> ('a \<Rightarrow> error + 'b) \<Rightarrow> error + 'b" where
  "bind m f = (case m of Inl e \<Rightarrow> Inl e | Inr x \<Rightarrow> f x)"

record 'a extreme_days =
  hottest :: "'a weather_row_scheme"
  coldest :: "'a weather_row_scheme"
  wettest :: "'a weather_row_scheme"
  most_humid :: "'a weather_row_scheme"

definition get_extreme_days :: "'a weather_row_scheme list \<Rightarrow> error + 'a extreme_days" where
  "get_extreme_days df =
     bind (bind (idxmax (column temperature df)) (loc df)) (\<lambda>hottest_day.
     bind (bind (idxmin (column temperature df)) (loc df)) (\<lambda>coldest_day.
     bind (bind (idxmax (column rainfall df)) (loc df)) (\<lambda>wettest_day.
     bind (bind (idxmax (column humidity df)) (loc df)) (\<lambda>most_humid_day.
     Inr \<lparr>hottest = hottest_day, coldest = coldest_day,
          wettest = wettest_day, most_humid = most_humid_day\<rparr>))))"

text \<open>
  \<open>get_comfort_index\<close> copies its argument and assigns a column of the copy. Tables are
  therefore objects in a store: a reference is a position of the store, \<open>df.copy()\<close>
  allocates a new object, and the column assignment updates the object it is applied to.
  A reference always denotes an allocated object.
\<close>

record comfort_row = weather_row +
  comfort_index :: real

datatype dataframe = Weather "weather_row list" | Comfort "comfort_row list"

type_synonym store = "dataframe list"

text \<open>The weather columns of a stored table, and \<open>df[c]\<close> for one of them.\<close>

definition weather_part :: "dataframe \<Rightarrow> weather_row list" where
  "weather_part df =
     (case df of Weather rows \<Rightarrow> rows | Comfort rows \<Rightarrow> map weather_row.truncate rows)"

definition series :: "(weather_row \<Rightarrow> real) \<Rightarrow> dataframe \<Rightarrow> real list" where
  "series c df = map c (weather_part df)"

definition df_copy :: "store \<Rightarrow> nat \<Rightarrow> nat \<times> store" where
  "df_copy s df = (length s, s @ [s ! df])"

text \<open>
  \<open>df['comfort_index'] = values\<close>: adds the column, or replaces it where the table has
  one; values of another length than the table are a \<open>ValueError\<close>.
\<close>

definition assign_comfort_index :: "dataframe \<Rightarrow> real list \<Rightarrow> error + dataframe" where
  "assign_comfort_index df values =
     (case df of
        Weather rows \<Rightarrow>
          if length values \<noteq> length rows then Inl ValueError
          else Inr (Comfort (map2 (\<lambda>r v. weather_row.extend r (comfort_row.fields v)) rows values))
      | Comfort rows \<Rightarrow>
          if length values \<noteq> length rows then Inl ValueError
          else Inr (Comfort (map2 (\<lambda>r v. r\<lparr>comfort_index := v\<rparr>) rows values)))"

definition get_comfort_index :: "store \<Rightarrow> nat \<Rightarrow> error + nat \<times> store" where
  "get_comfort_index s df =
     (let temp_comfort = map (\<lambda>t. \<bar>t - 23\<bar>) (series temperature (s ! df));
          humidity_discomfort = map (\<lambda>h. max 0 (h - 60) / 10) (series humidity (s ! df));
          comfort = map2 (+) temp_comfort humidity_discomfort;
          (df_comfort, s) = df_copy s df
      in case assign_comfort_index (s ! df_comfort) comfort of
           Inl e \<Rightarrow> Inl e
         | Inr updated \<Rightarrow> Inr (df_comfort, s[df_comfort := updated]))"

section \<open>The filter of the dashboard (app.py)\<close>

text \<open>
  The filter block of the script, as a function of the table, of the value of the date
  widget (a tuple of dates, two of them once a range is chosen) and of the selected
  season. It has no statement that raises; its result is the value of \<open>filtered_data\<close>
  when the block has run.
\<close>

definition apply_filters ::
  "'a weather_row_scheme list \<Rightarrow> timestamp list \<Rightarrow> string \<Rightarrow> error + 'a weather_row_scheme list" where
  "apply_filters weather_data date_range season_filter =
     (let filtered_data = weather_data;
          filtered_data =
            (if length date_range = 2
             then let start_date = date_range ! 0; end_date = date_range ! 1
                  in filter (\<lambda>r. ts_le start_date (date r) \<and> ts_le (date r) end_date) filtered_data
             else filtered_data);
          filtered_data =
            (if season_filter \<noteq> ''All Seasons''
             then filter (\<lambda>r. season r = season_filter) filtered_data
             else filtered_data)
      in Inr filtered_data)"

section \<open>Auxiliary definitions for the statements\<close>

text \<open>The two ends of the generated year, and the calendar days of a year in order.\<close>

definition jan1 :: timestamp where
  "jan1 = \<lparr>ts_year = 2024, ts_month = 1, ts_day = 1\<rparr>"

definition dec31 :: timestamp where
  "dec31 = \<lparr>ts_year = 2024, ts_month = 12, ts_day = 31\<rparr>"

definition year_days :: "int \<Rightarrow> timestamp list" where
  "year_days y = concat (map (\<lambda>m. map (\<lambda>k. \<lparr>ts_year = y, ts_month = m, ts_day = k\<rparr>)
                                       [1..days_in_month y m]) [1..12])"

text \<open>A realization of the random draws in which every variate is zero.\<close>

definition zero_rng :: rng where
  "zero_rng = \<lparr>gauss_temperature = (\<lambda>_. 0), gauss_humidity = (\<lambda>_. 0),
                uniform_rain_prob = (\<lambda>_. 0), standard_exponential_wet = (\<lambda>_. 0),
                standard_exponential_dry = (\<lambda>_. 0)\<rparr>"

text \<open>
  The row of day index \<open>i\<close>, for the draws \<open>g\<close> and a rainfall column \<open>rs\<close>; the
  generator is shown below to return these rows.
\<close>

definition generated_row :: "rng \<Rightarrow> real list \<Rightarrow> nat \<Rightarrow> weather_row" where
  "generated_row g rs i =
     \<lparr>index_label = i,
      date = pd_date_range jan1 dec31 ! i,
      temperature = 20 + 15 * sin ((real i / 365) * 2 * pi) + (0 + 3 * gauss_temperature g i),
      humidity = np_clip (60 + 20 * sin ((real i / 365) * 2 * pi) + (0 + 10 * gauss_humidity g i))
                   20 100,
      rainfall = rs ! i,
      month = ts_month (pd_date_range jan1 dec31 ! i),
      month_name = dt_month_name (pd_date_range jan1 dec31 ! i),
      season = get_season (ts_month (pd_date_range jan1 dec31 ! i))\<rparr>"

text \<open>A small table: a comfortable day in January and a hot, humid day in July.\<close>

definition sample_rows :: "weather_row list" where
  "sample_rows =
     [\<lparr>index_label = 0, date = \<lparr>ts_year = 2024, ts_month = 1, ts_day = 1\<rparr>,
       temperature = 23, humidity = 60, rainfall = 0,
       month = 1, month_name = ''January'', season = ''Winter''\<rparr>,
      \<lparr>index_label = 182, date = \<lparr>ts_year = 2024, ts_month = 7, ts_day = 1\<rparr>,
       temperature = 33, humidity = 80, rainfall = 3 / 20,
       month = 7, month_name = ''July'', season = ''Summer''\<rparr>]"

text \<open>The comfort index of each row of a stored table.\<close>

definition comfort_values :: "dataframe \<Rightarrow> real list" where
  "comfort_values df =
     map (\<lambda>r. \<bar>temperature r - 23\<bar> + max 0 (humidity r - 60) / 10) (weather_part df)"

text \<open>Two values of the date widget: a range in order, and one whose start is after its end.\<close>

definition jan_to_mar :: "timestamp list" where
  "jan_to_mar = [\<lparr>ts_year = 2024, ts_month = 1, ts_day = 1\<rparr>,
                 \<lparr>ts_year = 2024, ts_month = 3, ts_day = 31\<rparr>]"

definition mar_to_jan :: "timestamp list" where
  "mar_to_jan = [\<lparr>ts_year = 2024, ts_month = 3, ts_day = 31\<rparr>,
                 \<lparr>ts_year = 2024, ts_month = 1, ts_day = 1\<rparr>]"

section \<open>Properties of the generator\<close>

subsection \<open>The date range\<close>

lemma valid_next_day: "valid_ts d \<Longrightarrow> valid_ts (next_day d)"
  by (auto simp: valid_ts_def next_day_def days_in_month_def)

lemma days_from_valid: "x \<in> set (days_from d e) \<Longrightarrow> valid_ts x"
proof (induction d e rule: days_from.induct)
  case (1 d e)
  then show ?case
    by (subst (asm) (2) days_from.simps) (auto split: if_splits)
qed

lemma days_from_nth_ordinal:
  "i < length (days_from d e) \<Longrightarrow> toordinal (days_from d e ! i) = toordinal d + int i"
proof (induction i arbitrary: d)
  case 0
  then show ?case by (subst (asm) days_from.simps, subst days_from.simps) (auto split: if_splits)
next
  case (Suc i)
  from Suc.prems have v: "valid_ts d \<and> ts_le d e"
    by (subst (asm) days_from.simps) (auto split: if_splits)
  then have eq: "days_from d e = d # days_from (next_day d) e"
    by (subst days_from.simps) simp
  with Suc.prems have "i < length (days_from (next_day d) e)" by simp
  from Suc.IH [OF this] show ?case
    using v by (simp add: eq toordinal_next_day)
qed

lemma days_from_nth_next:
  "Suc i < length (days_from d e) \<Longrightarrow> days_from d e ! Suc i = next_day (days_from d e ! i)"
proof (induction i arbitrary: d)
  case 0
  then have v: "valid_ts d \<and> ts_le d e"
    by (subst (asm) days_from.simps) (auto split: if_splits)
  then have eq: "days_from d e = d # days_from (next_day d) e"
    by (subst days_from.simps) simp
  with 0 have "days_from (next_day d) e \<noteq> []" by auto
  then have "days_from (next_day d) e = next_day d # days_from (next_day (next_day d)) e"
    by (subst days_from.simps, subst (asm) days_from.simps) (auto split: if_splits)
  then show ?case by (simp add: eq)
next
  case (Suc i)
  from Suc.prems have v: "valid_ts d \<and> ts_le d e"
    by (subst (asm) days_from.simps) (auto split: if_splits)
  then have eq: "days_from d e = d # days_from (next_day d) e"
    by (subst days_from.simps) simp
  with Suc.prems have "Suc i < length (days_from (next_day d) e)" by simp
  from Suc.IH [OF this] show ?case by (simp add: eq)
qed

lemma days_from_distinct: "distinct (days_from d e)"
proof -
  have "days_from d e ! i \<noteq> days_from d e ! j"
    if "i < length (days_from d e)" "j < length (days_from d e)" "i \<noteq> j" for i j
  proof
    assume "days_from d e ! i = days_from d e ! j"
    then have "toordinal (days_from d e ! i) = toordinal (days_from d e ! j)" by simp
    with that show False by (simp add: days_from_nth_ordinal)
  qed
  then show ?thesis by (auto simp: distinct_conv_nth)
qed

lemma date_range_2024: "pd_date_range jan1 dec31 = year_days 2024"
  by code_simp

lemma length_year_days_2024: "length (year_days 2024) = 366"
  by code_simp

lemma mem_year_days:
  "x \<in> set (year_days y) \<longleftrightarrow>
     (\<exists>m\<in>{1..12}. \<exists>k\<in>{1..days_in_month y m}. x = \<lparr>ts_year = y, ts_month = m, ts_day = k\<rparr>)"
  unfolding year_days_def by auto

lemma set_year_days: "set (year_days y) = {d. valid_ts d \<and> ts_year d = y}"
proof (intro set_eqI iffI)
  fix d assume "d \<in> set (year_days y)"
  then show "d \<in> {d. valid_ts d \<and> ts_year d = y}"
    by (auto simp: mem_year_days valid_ts_def)
next
  fix d assume "d \<in> {d. valid_ts d \<and> ts_year d = y}"
  then have v: "valid_ts d" and y: "ts_year d = y" by simp_all
  have d: "d = \<lparr>ts_year = y, ts_month = ts_month d, ts_day = ts_day d\<rparr>"
    using y by (cases d) simp
  have "ts_month d \<in> {1..12}" and "ts_day d \<in> {1..days_in_month y (ts_month d)}"
    using v y by (simp_all add: valid_ts_def)
  with d show "d \<in> set (year_days y)"
    unfolding mem_year_days by blast
qed

subsection \<open>The rows of the generated table\<close>

lemma length_assign_masked: "length (assign_masked a sel vs) = length a"
  by (induction a sel vs rule: assign_masked.induct) simp_all

lemma set_assign_masked: "set (assign_masked a sel vs) \<subseteq> set a \<union> set vs"
  by (induction a sel vs rule: assign_masked.induct) auto

lemma length_np_random_exponential: "length (np_random_exponential e scale n) = n"
  by (simp add: np_random_exponential_def)

lemma set_np_random_exponential:
  "set (np_random_exponential e scale n) \<subseteq> range (\<lambda>k. scale * e k)"
  by (auto simp: np_random_exponential_def)

lemma set_masked_exponential:
  assumes "length sel = length a"
  shows "set_masked a sel (np_random_exponential e scale (np_sum sel)) =
           Inr (assign_masked a sel (np_random_exponential e scale (np_sum sel)))"
  using assms by (simp add: set_masked_def length_np_random_exponential)

lemma length_date_range_2024: "length (pd_date_range jan1 dec31) = 366"
  by (simp add: date_range_2024 length_year_days_2024)

lemma date_range_2024_first: "pd_date_range jan1 dec31 ! 0 = jan1"
  unfolding date_range_2024 by code_simp

lemma date_range_2024_last: "pd_date_range jan1 dec31 ! 365 = dec31"
  unfolding date_range_2024 by code_simp

lemma generate_rows:
  obtains rs where
    "length rs = 366"
    "set rs \<subseteq> {0} \<union> range (\<lambda>k. 5 * standard_exponential_wet g k)
                   \<union> range (\<lambda>k. 2 * standard_exponential_dry g k)"
    "generate_weather_data g = Inr (map (generated_row g rs) [0..<366])"
proof -
  define ds where "ds = pd_date_range jan1 dec31"
  define n where "n = length ds"
  define sf where "sf = map spring_fall ds"
  define rp where "rp = np_random_rand (uniform_rain_prob g) n"
  define wet where "wet = map2 (\<lambda>m p. m \<and> p > 0.6) sf rp"
  define dry where "dry = map2 (\<lambda>m p. \<not> m \<and> p > 0.8) sf rp"
  define ew where "ew = np_random_exponential (standard_exponential_wet g) 5 (np_sum wet)"
  define ed where "ed = np_random_exponential (standard_exponential_dry g) 2 (np_sum dry)"
  define r0 where "r0 = replicate n (0::real)"
  define r1 where "r1 = assign_masked r0 wet ew"
  define r2 where "r2 = assign_masked r1 dry ed"
  define ts where "ts = map2 (+) (base_temp n) (np_random_normal (gauss_temperature g) 0 3 n)"
  define hs where "hs = map (\<lambda>h. np_clip h 20 100)
                          (map2 (+) (base_humidity n) (np_random_normal (gauss_humidity g) 0 10 n))"
  have n: "n = 366" by (simp add: n_def ds_def length_date_range_2024)
  have lw: "length wet = n" and ld: "length dry = n"
    by (simp_all add: wet_def dry_def sf_def rp_def np_random_rand_def n_def)
  have l1: "length r1 = n" by (simp add: r1_def r0_def length_assign_masked)
  have l2: "length r2 = n" by (simp add: r2_def l1 length_assign_masked)
  have s1: "set_masked r0 wet ew = Inr r1"
    unfolding r1_def ew_def by (rule set_masked_exponential) (simp add: lw r0_def)
  have s2: "set_masked r1 dry ed = Inr r2"
    unfolding r2_def ed_def by (rule set_masked_exponential) (simp add: ld l1)
  have lt: "length ts = n" by (simp add: ts_def base_temp_def np_arange_def np_random_normal_def)
  have lh: "length hs = n"
    by (simp add: hs_def base_humidity_def np_arange_def np_random_normal_def)
  have gen: "generate_weather_data g = DataFrame ds ts hs r2"
    unfolding generate_weather_data_def Let_def
    unfolding jan1_def [symmetric] dec31_def [symmetric] ds_def [symmetric] n_def [symmetric]
      sf_def [symmetric] rp_def [symmetric] wet_def [symmetric] dry_def [symmetric]
      ew_def [symmetric] ed_def [symmetric]
      r0_def [symmetric] s1 sum.case s2 ts_def [symmetric] hs_def [symmetric]
    by (rule refl)
  have tsi: "ts ! i = 20 + 15 * sin ((real i / 365) * 2 * pi) + (0 + 3 * gauss_temperature g i)"
    if "i < n" for i
    using that by (simp add: ts_def base_temp_def np_arange_def np_random_normal_def)
  have hsi: "hs ! i = np_clip (60 + 20 * sin ((real i / 365) * 2 * pi)
                                + (0 + 10 * gauss_humidity g i)) 20 100"
    if "i < n" for i
    using that by (simp add: hs_def base_humidity_def np_arange_def np_random_normal_def)
  have "DataFrame ds ts hs r2 = Inr (map (generated_row g r2) [0..<n])"
    using lt lh l2 tsi hsi by (simp add: DataFrame_def generated_row_def n_def ds_def)
  with gen have res: "generate_weather_data g = Inr (map (generated_row g r2) [0..<366])"
    by (simp add: n)
  have "set r1 \<subseteq> {0} \<union> range (\<lambda>k. 5 * standard_exponential_wet g k)"
    using set_assign_masked [of r0 wet ew]
      set_np_random_exponential [of "standard_exponential_wet g" 5 "np_sum wet"]
    by (auto simp: r1_def r0_def ew_def)
  then have "set r2 \<subseteq> {0} \<union> range (\<lambda>k. 5 * standard_exponential_wet g k)
                        \<union> range (\<lambda>k. 2 * standard_exponential_dry g k)"
    using set_assign_masked [of r1 dry ed]
      set_np_random_exponential [of "standard_exponential_dry g" 2 "np_sum dry"]
    unfolding r2_def ed_def by blast
  then show thesis
    using that [of r2] l2 res by (simp add: n)
qed

lemma generate_dates_aux:
  obtains df where "generate_weather_data g = Inr df" "map date df = pd_date_range jan1 dec31"
proof -
  obtain rs where gen: "generate_weather_data g = Inr (map (generated_row g rs) [0..<366])"
    by (rule generate_rows)
  have "map date (map (generated_row g rs) [0..<366]) =
          map (\<lambda>i. pd_date_range jan1 dec31 ! i) [0..<length (pd_date_range jan1 dec31)]"
    by (simp add: generated_row_def comp_def length_date_range_2024)
  then have "map date (map (generated_row g rs) [0..<366]) = pd_date_range jan1 dec31"
    by (simp only: map_nth)
  with gen show thesis using that by blast
qed

subsection \<open>Rows by index, seasons and the annual sinusoid\<close>

lemma generate_nth:
  assumes "generate_weather_data g = Inr df"
  obtains rs where
    "length df = 366"
    "set rs \<subseteq> {0} \<union> range (\<lambda>k. 5 * standard_exponential_wet g k)
                   \<union> range (\<lambda>k. 2 * standard_exponential_dry g k)"
    "\<And>i. i < 366 \<Longrightarrow> df ! i = generated_row g rs i \<and> rs ! i \<in> set rs"
proof -
  obtain rs where rs: "length rs = 366"
    "set rs \<subseteq> {0} \<union> range (\<lambda>k. 5 * standard_exponential_wet g k)
                   \<union> range (\<lambda>k. 2 * standard_exponential_dry g k)"
    "generate_weather_data g = Inr (map (generated_row g rs) [0..<366])"
    by (rule generate_rows)
  from rs(3) assms have df: "df = map (generated_row g rs) [0..<366]" by simp
  show thesis
  proof (rule that [of rs])
    show "length df = 366" by (simp add: df)
    show "set rs \<subseteq> {0} \<union> range (\<lambda>k. 5 * standard_exponential_wet g k)
                   \<union> range (\<lambda>k. 2 * standard_exponential_dry g k)" by (rule rs(2))
    show "df ! i = generated_row g rs i \<and> rs ! i \<in> set rs" if "i < 366" for i
      using that rs(1) by (simp add: df)
  qed
qed

lemma generate_total: "\<exists>df. generate_weather_data g = Inr df \<and> length df = 366"
proof -
  obtain rs where "generate_weather_data g = Inr (map (generated_row g rs) [0..<366])"
    by (rule generate_rows)
  then show ?thesis by simp
qed

lemma np_clip_bounds: "lo \<le> hi \<Longrightarrow> lo \<le> np_clip x lo hi \<and> np_clip x lo hi \<le> hi"
  by (simp add: np_clip_def)










lemma month_cases:
  fixes m :: int
  assumes "1 \<le> m" "m \<le> 12"
  shows "m = 1 \<or> m = 2 \<or> m = 3 \<or> m = 4 \<or> m = 5 \<or> m = 6 \<or> m = 7 \<or> m = 8 \<or>
         m = 9 \<or> m = 10 \<or> m = 11 \<or> m = 12"
  using assms by arith

lemma get_season_cases:
  assumes "1 \<le> m" "m \<le> 12"
  shows "(get_season m = ''Winter'' \<longleftrightarrow> m \<in> {12, 1, 2}) \<and>
         (get_season m = ''Spring'' \<longleftrightarrow> m \<in> {3, 4, 5}) \<and>
         (get_season m = ''Summer'' \<longleftrightarrow> m \<in> {6, 7, 8}) \<and>
         (get_season m = ''Fall'' \<longleftrightarrow> m \<in> {9, 10, 11})"
  using month_cases [OF assms] by (elim disjE) (simp_all add: get_season_def)

lemma date_range_2024_valid:
  assumes "i < 366"
  shows "valid_ts (pd_date_range jan1 dec31 ! i)"
proof -
  have "pd_date_range jan1 dec31 ! i \<in> set (days_from jan1 dec31)"
    using assms length_date_range_2024 by (simp add: pd_date_range_def)
  then show ?thesis by (rule days_from_valid)
qed

lemma date_range_2024_july: "pd_date_range jan1 dec31 ! 182 = \<lparr>ts_year = 2024, ts_month = 7, ts_day = 1\<rparr>"
  unfolding date_range_2024 by code_simp

section \<open>The claims about the generator\<close>

text \<open>
  C2. Whatever the random draws, the generator returns a table (it raises nothing) of
  exactly 366 rows. The first date is 1 January 2024 and the last is 31 December 2024;
  each date is the calendar day after the date of the row before it and lies strictly
  later; no date occurs twice, and the dates are exactly the calendar days of the leap
  year 2024.
\<close>

theorem generate_dates:
  "\<exists>df. generate_weather_data g = Inr df \<and> length df = 366 \<and>
        date (df ! 0) = \<lparr>ts_year = 2024, ts_month = 1, ts_day = 1\<rparr> \<and>
        date (df ! 365) = \<lparr>ts_year = 2024, ts_month = 12, ts_day = 31\<rparr> \<and>
        (\<forall>i. Suc i < 366 \<longrightarrow>
           ts_less (date (df ! i)) (date (df ! Suc i)) \<and>
           date (df ! Suc i) = next_day (date (df ! i))) \<and>
        distinct (map date df) \<and>
        set (map date df) = {d. valid_ts d \<and> ts_year d = 2024}"
proof -
  let ?ds = "pd_date_range jan1 dec31"
  obtain df where df: "generate_weather_data g = Inr df" and dates: "map date df = ?ds"
    by (rule generate_dates_aux)
  have len: "length df = 366"
    using arg_cong [OF dates, of length] by (simp add: length_date_range_2024)
  have nth: "date (df ! i) = ?ds ! i" if "i < 366" for i
    using that len nth_map [of i df date] by (simp add: dates)
  have first: "date (df ! 0) = \<lparr>ts_year = 2024, ts_month = 1, ts_day = 1\<rparr>"
  proof -
    have "date (df ! 0) = jan1" using nth [of 0] by (simp add: date_range_2024_first)
    then show ?thesis by (simp add: jan1_def)
  qed
  have last: "date (df ! 365) = \<lparr>ts_year = 2024, ts_month = 12, ts_day = 31\<rparr>"
  proof -
    have "date (df ! 365) = dec31" using nth [of 365] by (simp add: date_range_2024_last)
    then show ?thesis by (simp add: dec31_def)
  qed
  have step: "ts_less (date (df ! i)) (date (df ! Suc i)) \<and>
              date (df ! Suc i) = next_day (date (df ! i))" if "Suc i < 366" for i
  proof -
    from that have i: "i < length (days_from jan1 dec31)" and si: "Suc i < length (days_from jan1 dec31)"
      using length_date_range_2024 by (simp_all add: pd_date_range_def)
    have "toordinal (?ds ! Suc i) = toordinal (?ds ! i) + 1"
      unfolding pd_date_range_def
      by (simp add: days_from_nth_ordinal [OF i] days_from_nth_ordinal [OF si])
    moreover have "?ds ! Suc i = next_day (?ds ! i)"
      unfolding pd_date_range_def by (rule days_from_nth_next [OF si])
    ultimately show ?thesis
      using that by (simp add: nth ts_less_def)
  qed
  have dist: "distinct (map date df)"
    unfolding dates pd_date_range_def by (rule days_from_distinct)
  have cover: "set (map date df) = {d. valid_ts d \<and> ts_year d = 2024}"
    unfolding dates date_range_2024 by (rule set_year_days)
  from df len first last step dist cover show ?thesis by blast
qed

theorem generate_dates_witness:
  "\<exists>df. generate_weather_data zero_rng = Inr df \<and> length df = 366 \<and>
        Suc 0 < (366::nat) \<and>
        ts_less (date (df ! 0)) (date (df ! Suc 0)) \<and>
        date (df ! Suc 0) = next_day (date (df ! 0))"
proof -
  obtain df where df: "generate_weather_data zero_rng = Inr df" "length df = 366"
    and step: "\<forall>i. Suc i < 366 \<longrightarrow>
           ts_less (date (df ! i)) (date (df ! Suc i)) \<and>
           date (df ! Suc i) = next_day (date (df ! i))"
    using generate_dates [of zero_rng] by blast
  have "Suc 0 < (366::nat)" by simp
  with step have "ts_less (date (df ! 0)) (date (df ! Suc 0)) \<and>
           date (df ! Suc 0) = next_day (date (df ! 0))" by blast
  with df \<open>Suc 0 < (366::nat)\<close> show ?thesis by blast
qed

text \<open>
  C3. Whatever the normal and uniform draws, and for exponential variates that are not
  negative (as every value of an exponential distribution is), each row of the generated
  table has a humidity between 20 and 100 and a rainfall that is not negative.
\<close>

theorem generate_humidity_rainfall:
  assumes gen: "generate_weather_data g = Inr df"
    and r: "r \<in> set df"
    and wet: "\<forall>k. 0 \<le> standard_exponential_wet g k"
    and dry: "\<forall>k. 0 \<le> standard_exponential_dry g k"
  shows "20 \<le> humidity r \<and> humidity r \<le> 100 \<and> 0 \<le> rainfall r"
proof -
  obtain rs where len: "length df = 366"
    and rs: "set rs \<subseteq> {0} \<union> range (\<lambda>k. 5 * standard_exponential_wet g k)
                          \<union> range (\<lambda>k. 2 * standard_exponential_dry g k)"
    and row: "\<And>i. i < 366 \<Longrightarrow> df ! i = generated_row g rs i \<and> rs ! i \<in> set rs"
    using generate_nth [OF gen] by blast
  from r len obtain i where i: "i < 366" and ri: "r = df ! i"
    by (auto simp: in_set_conv_nth)
  have eq: "r = generated_row g rs i" and mem: "rs ! i \<in> set rs"
    using row [OF i] ri by simp_all
  have hum: "20 \<le> humidity r \<and> humidity r \<le> 100"
    unfolding eq generated_row_def using np_clip_bounds [of 20 100] by simp
  have "0 \<le> x" if "x \<in> set rs" for x
    using that rs wet dry by auto
  with mem have "0 \<le> rainfall r"
    unfolding eq generated_row_def by simp
  with hum show ?thesis by simp
qed

theorem generate_humidity_rainfall_witness:
  "\<exists>df. generate_weather_data zero_rng = Inr df \<and> df ! 0 \<in> set df \<and>
        (\<forall>k. 0 \<le> standard_exponential_wet zero_rng k) \<and>
        (\<forall>k. 0 \<le> standard_exponential_dry zero_rng k) \<and>
        humidity (df ! 0) = 60 \<and>
        20 \<le> humidity (df ! 0) \<and> humidity (df ! 0) \<le> 100 \<and> 0 \<le> rainfall (df ! 0)"
proof -
  obtain df where gen: "generate_weather_data zero_rng = Inr df" and len: "length df = 366"
    using generate_total by blast
  have mem: "df ! 0 \<in> set df" using len by simp
  have wet: "\<forall>k. 0 \<le> standard_exponential_wet zero_rng k"
    and dry: "\<forall>k. 0 \<le> standard_exponential_dry zero_rng k"
    by (simp_all add: zero_rng_def)
  obtain rs where row: "\<And>i. i < 366 \<Longrightarrow> df ! i = generated_row zero_rng rs i \<and> rs ! i \<in> set rs"
    using generate_nth [OF gen] by blast
  have "df ! 0 = generated_row zero_rng rs 0" using row [of 0] by simp
  then have "humidity (df ! 0) = 60"
    by (simp add: generated_row_def zero_rng_def np_clip_def)
  with generate_humidity_rainfall [OF gen mem wet dry] gen mem wet dry
  show ?thesis by blast
qed

text \<open>
  C4. In each generated row, \<open>month\<close> is the month of the row's date and lies between
  1 and 12, \<open>month_name\<close> is the name of that month, and \<open>season\<close> is
  \<open>get_season\<close> of the month: Winter exactly for the months 12, 1 and 2, Spring for
  3, 4 and 5, Summer for 6, 7 and 8, Fall for 9, 10 and 11. A row dated in July has season
  Summer and month name July.
\<close>

theorem generate_season_month:
  assumes gen: "generate_weather_data g = Inr df" and r: "r \<in> set df"
  shows "month r = ts_month (date r) \<and> 1 \<le> month r \<and> month r \<le> 12 \<and>
         month_name r = month_order ! nat (month r - 1) \<and>
         season r = get_season (month r) \<and>
         (season r = ''Winter'' \<longleftrightarrow> month r \<in> {12, 1, 2}) \<and>
         (season r = ''Spring'' \<longleftrightarrow> month r \<in> {3, 4, 5}) \<and>
         (season r = ''Summer'' \<longleftrightarrow> month r \<in> {6, 7, 8}) \<and>
         (season r = ''Fall'' \<longleftrightarrow> month r \<in> {9, 10, 11}) \<and>
         (ts_month (date r) = 7 \<longrightarrow> season r = ''Summer'' \<and> month_name r = ''July'')"
proof -
  obtain rs where len: "length df = 366"
    and row: "\<And>i. i < 366 \<Longrightarrow> df ! i = generated_row g rs i \<and> rs ! i \<in> set rs"
    using generate_nth [OF gen] by blast
  from r len obtain i where i: "i < 366" and ri: "r = df ! i"
    by (auto simp: in_set_conv_nth)
  have eq: "r = generated_row g rs i" using row [OF i] ri by simp
  let ?d = "pd_date_range jan1 dec31 ! i"
  have v: "1 \<le> ts_month ?d" "ts_month ?d \<le> 12"
    using date_range_2024_valid [OF i] by (simp_all add: valid_ts_def)
  have m: "month r = ts_month (date r)" "month r = ts_month ?d"
    by (simp_all add: eq generated_row_def)
  have n: "month_name r = month_order ! nat (month r - 1)"
    using v by (simp add: eq generated_row_def dt_month_name_def)
  have s: "season r = get_season (month r)"
    by (simp add: eq generated_row_def)
  have july: "season r = ''Summer'' \<and> month_name r = ''July''" if "ts_month (date r) = 7"
  proof -
    from that have "month r = 7" by (simp add: m)
    then show ?thesis unfolding n s by (simp add: get_season_def month_order_def)
  qed
  then have j: "ts_month (date r) = 7 \<longrightarrow> season r = ''Summer'' \<and> month_name r = ''July''"
    by (rule impI)
  have mr: "1 \<le> month r" "month r \<le> 12" using v by (simp_all add: m(2))
  note c = get_season_cases [OF mr, folded s]
  from m(1) mr n s c j show ?thesis by blast
qed

theorem generate_season_month_witness:
  "\<exists>df. generate_weather_data zero_rng = Inr df \<and> df ! 182 \<in> set df \<and>
        date (df ! 182) = \<lparr>ts_year = 2024, ts_month = 7, ts_day = 1\<rparr> \<and>
        ts_month (date (df ! 182)) = 7 \<and>
        season (df ! 182) = ''Summer'' \<and> month_name (df ! 182) = ''July''"
proof -
  obtain df where gen: "generate_weather_data zero_rng = Inr df" and len: "length df = 366"
    using generate_total by blast
  have mem: "df ! 182 \<in> set df" using len by simp
  obtain rs where row: "\<And>i. i < 366 \<Longrightarrow> df ! i = generated_row zero_rng rs i \<and> rs ! i \<in> set rs"
    using generate_nth [OF gen] by blast
  have "df ! 182 = generated_row zero_rng rs 182" using row [of 182] by simp
  then have d: "date (df ! 182) = \<lparr>ts_year = 2024, ts_month = 7, ts_day = 1\<rparr>"
    by (simp add: generated_row_def date_range_2024_july)
  then have "ts_month (date (df ! 182)) = 7" by simp
  with generate_season_month [OF gen mem] gen mem d show ?thesis by blast
qed


section \<open>Properties of the aggregator and of the comfort index\<close>

lemma find_map_label:
  assumes "\<And>k. label (f k) = k"
  shows "find (\<lambda>r. label r = l) (map f ks) = (if l \<in> set ks then Some (f l) else None)"
  using assms by (induction ks) auto

lemma label_groupby_mean: "map label (groupby_mean key df) = sort (remdups (map key df))"
  by (simp add: groupby_mean_def comp_def Let_def)

lemma find_groupby_mean:
  "find (\<lambda>r. label r = l) (groupby_mean key df) =
     (if l \<in> key ` set df
      then Some \<lparr>label = l,
                 mean_temperature = series_mean (map temperature (filter (\<lambda>r. key r = l) df)),
                 mean_humidity = series_mean (map humidity (filter (\<lambda>r. key r = l) df)),
                 mean_rainfall = series_mean (map rainfall (filter (\<lambda>r. key r = l) df))\<rparr>
      else None)"
  unfolding groupby_mean_def
  by (subst find_map_label) (simp_all add: Let_def)

lemma get_monthly_averages_eq:
  "get_monthly_averages df =
     Inr (map (\<lambda>l. let grp = filter (\<lambda>r. month_name r = l) df
                    in \<lparr>label = l,
                        mean_temperature = series_mean (map temperature grp),
                        mean_humidity = series_mean (map humidity grp),
                        mean_rainfall = series_mean (map rainfall grp)\<rparr>) month_order)"
proof -
  have d: "distinct (map label (groupby_mean month_name df))"
    by (simp add: label_groupby_mean)
  have e: "filter (\<lambda>r. month_name r = l) df = []" if "l \<notin> month_name ` set df" for l
    using that by (auto simp: filter_empty_conv)
  show ?thesis
    unfolding get_monthly_averages_def Let_def reindex_def
    using d by (auto simp: find_groupby_mean series_mean_def e)
qed

lemma map2_map_same: "map2 f (map g xs) (map h xs) = map (\<lambda>x. f (g x) (h x)) xs"
  by (induction xs) simp_all

lemma map2_nth_same: "map2 f xs (map h xs) = map (\<lambda>x. f x (h x)) xs"
  by (induction xs) simp_all

lemma comfort_series:
  "map2 (+) (map (\<lambda>t. \<bar>t - 23\<bar>) (series temperature df))
            (map (\<lambda>h. max 0 (h - 60) / 10) (series humidity df)) = comfort_values df"
  by (simp add: series_def comfort_values_def map2_map_same comp_def)

lemma assign_comfort_index_values:
  "assign_comfort_index df (comfort_values df) =
     Inr (Comfort (map (\<lambda>r. weather_row.extend r
        (comfort_row.fields (\<bar>temperature r - 23\<bar> + max 0 (humidity r - 60) / 10)))
        (weather_part df)))"
proof (cases df)
  case (Weather rows)
  then show ?thesis
    by (simp add: assign_comfort_index_def comfort_values_def weather_part_def map2_nth_same)
next
  case (Comfort rows)
  have "r\<lparr>comfort_index := v\<rparr> = weather_row.extend (weather_row.truncate r) (comfort_row.fields v)"
    for r :: comfort_row and v
    by (cases r) (simp add: weather_row.defs comfort_row.defs)
  with Comfort show ?thesis
    by (simp add: assign_comfort_index_def comfort_values_def weather_part_def map2_nth_same
        comp_def)
qed

lemma get_comfort_index_eq:
  "get_comfort_index s df =
     Inr (length s,
          s @ [Comfort (map (\<lambda>r. weather_row.extend r
                 (comfort_row.fields (\<bar>temperature r - 23\<bar> + max 0 (humidity r - 60) / 10)))
                 (weather_part (s ! df)))])"
  unfolding get_comfort_index_def Let_def comfort_series df_copy_def
  by (simp add: assign_comfort_index_values)

lemma truncate_extend: "weather_row.truncate (weather_row.extend r x) = r"
  by (cases r) (simp add: weather_row.defs)

lemma comfort_index_extend: "comfort_index (weather_row.extend r (comfort_row.fields v)) = v"
  by (cases r) (simp add: weather_row.defs comfort_row.defs)


lemma get_extreme_days_sample:
  "get_extreme_days sample_rows =
     Inr \<lparr>hottest = sample_rows ! 1, coldest = sample_rows ! 0,
          wettest = sample_rows ! 1, most_humid = sample_rows ! 1\<rparr>"
  by (simp add: get_extreme_days_def bind_def idxmax_def idxmin_def column_def loc_def
      sample_rows_def)

section \<open>The claims about the aggregator and the comfort index\<close>

text \<open>
  C1, as stated, fails: on a table without rows the extreme-days query does not raise
  \<open>EmptyDatasetError\<close>.
\<close>

theorem get_extreme_days_empty_counterexample:
  "get_extreme_days ([] :: weather_row list) \<noteq> Inl EmptyDatasetError"
  by (simp add: get_extreme_days_def bind_def idxmax_def column_def)


text \<open>
  C1, amended. On a table without rows the extreme-days query raises the \<open>ValueError\<close>
  of \<open>idxmax\<close>; it returns no value.
\<close>

theorem get_extreme_days_empty:
  "get_extreme_days [] = Inl ValueError"
  by (simp add: get_extreme_days_def bind_def idxmax_def column_def)


text \<open>
  C5. The query returns a table in which each row has the temperature and humidity of the
  row of the argument at the same position, and a comfort index equal to
  \<open>\<bar>temperature - 23\<bar> + max 0 (humidity - 60) / 10\<close>; the index is 0 at temperature
  23 and humidity 60, and 12 at temperature 33 and humidity 80.
\<close>

theorem get_comfort_index_formula:
  assumes "df < length s"
  shows "\<exists>df_comfort s' rows.
           get_comfort_index s df = Inr (df_comfort, s') \<and> s' ! df_comfort = Comfort rows \<and>
           length rows = length (weather_part (s ! df)) \<and>
           (\<forall>i < length rows.
              temperature (rows ! i) = temperature (weather_part (s ! df) ! i) \<and>
              humidity (rows ! i) = humidity (weather_part (s ! df) ! i) \<and>
              comfort_index (rows ! i) =
                \<bar>temperature (rows ! i) - 23\<bar> + max 0 (humidity (rows ! i) - 60) / 10 \<and>
              (temperature (rows ! i) = 23 \<and> humidity (rows ! i) = 60 \<longrightarrow>
                 comfort_index (rows ! i) = 0) \<and>
              (temperature (rows ! i) = 33 \<and> humidity (rows ! i) = 80 \<longrightarrow>
                 comfort_index (rows ! i) = 12))"
proof -
  let ?c = "\<lambda>r::weather_row. \<bar>temperature r - 23\<bar> + max 0 (humidity r - 60) / 10"
  let ?rows = "map (\<lambda>r. weather_row.extend r (comfort_row.fields (?c r))) (weather_part (s ! df))"
  let ?s' = "s @ [Comfort ?rows]"
  have a: "get_comfort_index s df = Inr (length s, ?s')" by (rule get_comfort_index_eq)
  have b: "?s' ! length s = Comfort ?rows" by simp
  have c: "length ?rows = length (weather_part (s ! df))" by simp
  have t: "temperature (weather_row.extend r x) = temperature r"
    and h: "humidity (weather_row.extend r x) = humidity r" for r :: weather_row and x :: "unit comfort_row_ext"
    by (cases r, simp add: weather_row.defs)+
  have d: "\<forall>i < length ?rows.
              temperature (?rows ! i) = temperature (weather_part (s ! df) ! i) \<and>
              humidity (?rows ! i) = humidity (weather_part (s ! df) ! i) \<and>
              comfort_index (?rows ! i) =
                \<bar>temperature (?rows ! i) - 23\<bar> + max 0 (humidity (?rows ! i) - 60) / 10 \<and>
              (temperature (?rows ! i) = 23 \<and> humidity (?rows ! i) = 60 \<longrightarrow>
                 comfort_index (?rows ! i) = 0) \<and>
              (temperature (?rows ! i) = 33 \<and> humidity (?rows ! i) = 80 \<longrightarrow>
                 comfort_index (?rows ! i) = 12)"
    by (simp add: t h comfort_index_extend)
  show ?thesis
    by (rule exI [of _ "length s"], rule exI [of _ ?s'], rule exI [of _ ?rows])
       (intro conjI a b c d)
qed

theorem get_comfort_index_formula_witness:
  "(0::nat) < length [Weather sample_rows] \<and>
   (\<exists>df_comfort s' rows.
      get_comfort_index [Weather sample_rows] 0 = Inr (df_comfort, s') \<and>
      s' ! df_comfort = Comfort rows \<and> length rows = 2 \<and>
      temperature (rows ! 0) = 23 \<and> humidity (rows ! 0) = 60 \<and> comfort_index (rows ! 0) = 0 \<and>
      temperature (rows ! 1) = 33 \<and> humidity (rows ! 1) = 80 \<and> comfort_index (rows ! 1) = 12)"
proof -
  have l: "(0::nat) < length [Weather sample_rows]" by simp
  have w: "weather_part ([Weather sample_rows] ! 0) = sample_rows"
    by (simp add: weather_part_def)
  from get_comfort_index_formula [OF l]
  obtain df_comfort s' rows where
    r: "get_comfort_index [Weather sample_rows] 0 = Inr (df_comfort, s')"
       "s' ! df_comfort = Comfort rows" "length rows = length sample_rows"
    and f: "\<forall>i < length rows.
              temperature (rows ! i) = temperature (sample_rows ! i) \<and>
              humidity (rows ! i) = humidity (sample_rows ! i) \<and>
              comfort_index (rows ! i) =
                \<bar>temperature (rows ! i) - 23\<bar> + max 0 (humidity (rows ! i) - 60) / 10 \<and>
              (temperature (rows ! i) = 23 \<and> humidity (rows ! i) = 60 \<longrightarrow>
                 comfort_index (rows ! i) = 0) \<and>
              (temperature (rows ! i) = 33 \<and> humidity (rows ! i) = 80 \<longrightarrow>
                 comfort_index (rows ! i) = 12)"
    unfolding w by blast
  have n: "length rows = 2" using r(3) by (simp add: sample_rows_def)
  have r0: "temperature (rows ! 0) = 23 \<and> humidity (rows ! 0) = 60 \<and> comfort_index (rows ! 0) = 0"
    using f [rule_format, of 0] n by (simp add: sample_rows_def)
  have r1: "temperature (rows ! 1) = 33 \<and> humidity (rows ! 1) = 80 \<and> comfort_index (rows ! 1) = 12"
    using f [rule_format, of 1] n by (simp add: sample_rows_def)
  from l r(1,2) n r0 r1 show ?thesis by blast
qed


text \<open>
  C9. The query returns a reference to a new table, different from its argument. Every
  table that was in the store, the argument among them, is unchanged. The new table has
  the \<open>comfort_index\<close> column, and without that column its rows are the rows of the
  argument.
\<close>

theorem get_comfort_index_copy:
  assumes "df < length s"
  shows "\<exists>df_comfort s' rows.
           get_comfort_index s df = Inr (df_comfort, s') \<and>
           df_comfort \<noteq> df \<and> df_comfort = length s \<and> length s' = Suc (length s) \<and>
           s' ! df = s ! df \<and> (\<forall>a < length s. s' ! a = s ! a) \<and>
           s' ! df_comfort = Comfort rows \<and>
           map weather_row.truncate rows = weather_part (s ! df)"
proof -
  let ?c = "\<lambda>r::weather_row. \<bar>temperature r - 23\<bar> + max 0 (humidity r - 60) / 10"
  let ?rows = "map (\<lambda>r. weather_row.extend r (comfort_row.fields (?c r))) (weather_part (s ! df))"
  let ?s' = "s @ [Comfort ?rows]"
  have a: "get_comfort_index s df = Inr (length s, ?s')" by (rule get_comfort_index_eq)
  have b: "length s \<noteq> df" using assms by simp
  have c: "length ?s' = Suc (length s)" by simp
  have d: "?s' ! df = s ! df" using assms by (simp add: nth_append)
  have e: "\<forall>a < length s. ?s' ! a = s ! a" by (simp add: nth_append)
  have f: "?s' ! length s = Comfort ?rows" by simp
  have g: "map weather_row.truncate ?rows = weather_part (s ! df)"
    by (simp add: comp_def truncate_extend)
  show ?thesis
    by (rule exI [of _ "length s"], rule exI [of _ ?s'], rule exI [of _ ?rows])
       (intro conjI a b c d e f g refl)
qed

theorem get_comfort_index_copy_witness:
  "(0::nat) < length [Weather sample_rows] \<and>
   (\<exists>df_comfort s' rows.
      get_comfort_index [Weather sample_rows] 0 = Inr (df_comfort, s') \<and>
      df_comfort = 1 \<and> s' ! 0 = Weather sample_rows \<and> s' ! df_comfort = Comfort rows \<and>
      map weather_row.truncate rows = sample_rows)"
proof -
  have l: "(0::nat) < length [Weather sample_rows]" by simp
  from get_comfort_index_copy [OF l]
  obtain df_comfort s' rows where
    "get_comfort_index [Weather sample_rows] 0 = Inr (df_comfort, s')"
    "df_comfort = length [Weather sample_rows]"
    "s' ! 0 = [Weather sample_rows] ! 0" "s' ! df_comfort = Comfort rows"
    "map weather_row.truncate rows = weather_part ([Weather sample_rows] ! 0)"
    by blast
  then show ?thesis by (auto simp: weather_part_def)
qed


text \<open>
  C10. For every table the monthly averages are exactly 12 rows, labelled January to
  December in this order. The row of a month that no row of the table has consists of
  missing values; the row of any other month holds the means of temperature, humidity and
  rainfall over the rows of that month.
\<close>

theorem get_monthly_averages_rows:
  "\<exists>avg. get_monthly_averages df = Inr avg \<and> length avg = 12 \<and>
     map label avg =
       [''January'', ''February'', ''March'', ''April'', ''May'', ''June'',
        ''July'', ''August'', ''September'', ''October'', ''November'', ''December''] \<and>
     (\<forall>i<12.
        let grp = filter (\<lambda>r. month_name r = month_order ! i) df
        in if grp = []
           then mean_temperature (avg ! i) = None \<and> mean_humidity (avg ! i) = None \<and>
                mean_rainfall (avg ! i) = None
           else mean_temperature (avg ! i) = Some (sum_list (map temperature grp) / real (length grp)) \<and>
                mean_humidity (avg ! i) = Some (sum_list (map humidity grp) / real (length grp)) \<and>
                mean_rainfall (avg ! i) = Some (sum_list (map rainfall grp) / real (length grp)))"
proof -
  let ?row = "\<lambda>l. let grp = filter (\<lambda>r. month_name r = l) df
                    in \<lparr>label = l,
                        mean_temperature = series_mean (map temperature grp),
                        mean_humidity = series_mean (map humidity grp),
                        mean_rainfall = series_mean (map rainfall grp)\<rparr>"
  let ?avg = "map ?row month_order"
  have len: "length month_order = 12" by (simp add: month_order_def)
  have a: "get_monthly_averages df = Inr ?avg" by (rule get_monthly_averages_eq)
  have b: "length ?avg = 12" by (simp add: len)
  have "map label ?avg = month_order" by (simp add: comp_def Let_def)
  then have c: "map label ?avg =
       [''January'', ''February'', ''March'', ''April'', ''May'', ''June'',
        ''July'', ''August'', ''September'', ''October'', ''November'', ''December'']"
    by (simp only: month_order_def)
  have d: "\<forall>i<12. let grp = filter (\<lambda>r. month_name r = month_order ! i) df
        in if grp = []
           then mean_temperature (?avg ! i) = None \<and> mean_humidity (?avg ! i) = None \<and>
                mean_rainfall (?avg ! i) = None
           else mean_temperature (?avg ! i) = Some (sum_list (map temperature grp) / real (length grp)) \<and>
                mean_humidity (?avg ! i) = Some (sum_list (map humidity grp) / real (length grp)) \<and>
                mean_rainfall (?avg ! i) = Some (sum_list (map rainfall grp) / real (length grp))"
    using len by (simp add: Let_def series_mean_def)
  show ?thesis
    by (rule exI [of _ ?avg]) (intro conjI a b c d)
qed

theorem get_monthly_averages_rows_witness:
  "\<exists>avg. get_monthly_averages sample_rows = Inr avg \<and> length avg = 12 \<and>
     (0::nat) < 12 \<and> mean_temperature (avg ! 0) = Some 23 \<and>
     (1::nat) < 12 \<and> mean_temperature (avg ! 1) = None \<and> mean_humidity (avg ! 1) = None \<and>
     mean_rainfall (avg ! 1) = None"
proof -
  obtain avg where avg: "get_monthly_averages sample_rows = Inr avg" "length avg = 12"
    and rows: "\<forall>i<12.
        let grp = filter (\<lambda>r. month_name r = month_order ! i) sample_rows
        in if grp = []
           then mean_temperature (avg ! i) = None \<and> mean_humidity (avg ! i) = None \<and>
                mean_rainfall (avg ! i) = None
           else mean_temperature (avg ! i) = Some (sum_list (map temperature grp) / real (length grp)) \<and>
                mean_humidity (avg ! i) = Some (sum_list (map humidity grp) / real (length grp)) \<and>
                mean_rainfall (avg ! i) = Some (sum_list (map rainfall grp) / real (length grp))"
    using get_monthly_averages_rows [of sample_rows] by blast
  have "mean_temperature (avg ! 0) = Some 23"
    using rows [rule_format, of 0] by (simp add: month_order_def sample_rows_def)
  moreover have "mean_temperature (avg ! 1) = None \<and> mean_humidity (avg ! 1) = None \<and>
     mean_rainfall (avg ! 1) = None"
    using rows [rule_format, of 1] by (simp add: month_order_def sample_rows_def)
  ultimately show ?thesis using avg by simp
qed


section \<open>The claims about the filter\<close>

lemma apply_filters_Inr:
  "apply_filters df dr sf =
     Inr (filter (\<lambda>r. (length dr = 2 \<longrightarrow> ts_le (dr ! 0) (date r) \<and> ts_le (date r) (dr ! 1)) \<and>
                       (sf \<noteq> ''All Seasons'' \<longrightarrow> season r = sf)) df)"
  by (simp add: apply_filters_def Let_def)

lemma toordinal_samples:
  "toordinal \<lparr>ts_year = 2024, ts_month = 1, ts_day = 1\<rparr> = 738886"
  "toordinal \<lparr>ts_year = 2024, ts_month = 3, ts_day = 31\<rparr> = 738976"
  "toordinal \<lparr>ts_year = 2024, ts_month = 7, ts_day = 1\<rparr> = 739068"
  by code_simp+

lemma apply_filters_sample:
  "apply_filters sample_rows jan_to_mar ''Winter'' = Inr [sample_rows ! 0]"
  by (simp add: apply_filters_Inr sample_rows_def jan_to_mar_def ts_le_def toordinal_samples)


text \<open>
  C6. Filtering is idempotent: the filter applied, with the same date range and season, to
  a table it has returned returns that table again, with the same rows in the same order.
\<close>

theorem apply_filters_idempotent:
  assumes "apply_filters df date_range season_filter = Inr sub"
  shows "apply_filters sub date_range season_filter = Inr sub"
proof -
  let ?P = "\<lambda>r. (length date_range = 2 \<longrightarrow>
                   ts_le (date_range ! 0) (date r) \<and> ts_le (date r) (date_range ! 1)) \<and>
                 (season_filter \<noteq> ''All Seasons'' \<longrightarrow> season r = season_filter)"
  from assms have "sub = filter ?P df" by (simp add: apply_filters_Inr)
  then have "filter ?P sub = sub" by simp
  then show ?thesis by (simp only: apply_filters_Inr)
qed

theorem apply_filters_idempotent_witness:
  "apply_filters sample_rows jan_to_mar ''Winter'' = Inr [sample_rows ! 0] \<and>
   apply_filters [sample_rows ! 0] jan_to_mar ''Winter'' = Inr [sample_rows ! 0]"
  using apply_filters_idempotent [OF apply_filters_sample] apply_filters_sample by simp


text \<open>
  C8, as stated, fails: for a date range whose start (31 March) is after its end
  (1 January) the filter does not raise \<open>InvalidDateRangeError\<close>.
\<close>

theorem apply_filters_reversed_range_counterexample:
  "ts_less (mar_to_jan ! 1) (mar_to_jan ! 0) \<and>
   apply_filters sample_rows mar_to_jan ''All Seasons'' \<noteq> Inl InvalidDateRangeError"
  by (simp add: apply_filters_Inr mar_to_jan_def ts_less_def toordinal_samples)


text \<open>
  C8, amended. For a date range whose start is after its end the filter raises nothing and
  returns the table without rows, whatever the table and the season.
\<close>

theorem apply_filters_reversed_range:
  assumes "ts_less end_date start_date"
  shows "apply_filters df [start_date, end_date] season_filter = Inr []"
  using assms by (auto simp: apply_filters_Inr filter_empty_conv ts_le_def ts_less_def)

theorem apply_filters_reversed_range_witness:
  "ts_less (mar_to_jan ! 1) (mar_to_jan ! 0) \<and>
   apply_filters sample_rows [mar_to_jan ! 0, mar_to_jan ! 1] ''Summer'' = Inr []"
proof -
  have l: "ts_less (mar_to_jan ! 1) (mar_to_jan ! 0)"
    by (simp add: mar_to_jan_def ts_less_def toordinal_samples)
  from apply_filters_reversed_range [OF l] l show ?thesis by simp
qed


end
